theory Spec2Isabelle
  imports Main "HOL-Library.Word" "HOL-Library.Sublist"
begin

unbundle bit_operations_syntax

section \<open>Values of the program\<close>

text \<open>
  The program is one Go file, \<^verbatim>\<open>main.go\<close>: \<^verbatim>\<open>main\<close> starts a directory watcher,
  \<^verbatim>\<open>processGzipFile\<close> decodes one gzip-compressed CSV file into one map per data row, and
  \<^verbatim>\<open>bulkInsertToElasticsearch\<close> sends these maps as one bulk request.

  An \<^verbatim>\<open>error\<close> value of Go is modelled by its message, a nil error by \<open>None\<close>. A
  \<^verbatim>\<open>map[string]interface{}\<close> is a partial map from keys to values: the rows' maps hold
  the cells, which are strings, and the decoded response body holds JSON values.
\<close>

type_synonym go_error = string

type_synonym dataMap = "string \<rightharpoonup> string"

datatype json =
    JNull
  | JBool bool
  | JNumber int
  | JString string
  | JArray "json list"
  | JObject "(string \<times> json) list"

type_synonym resBody = "string \<rightharpoonup> json"

text \<open>The configuration handed to \<^verbatim>\<open>elasticsearch.NewClient\<close> (lines 50 to 60).\<close>

record config =
  Addresses :: "string list"
  Username :: string
  Password :: string
  InsecureSkipVerify :: bool

datatype client = Client config

datatype watcher = Watcher nat

text \<open>\<^verbatim>\<open>esapi.BulkRequest\<close> with the two fields the program sets, and the response as far
  as the program reads it: \<^verbatim>\<open>res.IsError()\<close> and \<^verbatim>\<open>res.Body\<close>.\<close>

record request =
  Body :: string
  Refresh :: string

record response =
  IsError :: bool
  ResBody :: string

text \<open>An \<^verbatim>\<open>fsnotify.Event\<close>: the file's name and the bit mask of operations.\<close>

record fs_event =
  Name :: string
  Op :: "32 word"

definition fsnotify_Create :: "32 word" where
  "fsnotify_Create = 1"

text \<open>
  What arrives on the watcher's two channels, in the order the \<^verbatim>\<open>select\<close> of lines 76 to
  90 takes it: an event, an error, or the closing of one of the channels.
\<close>

datatype watch_msg =
    EventMsg fs_event
  | ErrorMsg go_error
  | EventsClosed
  | ErrorsClosed

section \<open>Effects\<close>

text \<open>
  The program ends early in three ways: \<^verbatim>\<open>log.Fatal\<close> prints and calls \<^verbatim>\<open>os.Exit(1)\<close>,
  an index out of range panics (index and length as the runtime reports them), and a
  call through the nil client panics with a nil pointer dereference. Each ends the whole
  process, whichever goroutine it happens in.
\<close>

datatype exit =
    OsExit nat
  | PanicIndexOutOfRange nat nat
  | PanicNilDereference

text \<open>The lines the program logs, one constructor per logging call of the source.\<close>

datatype logmsg =
    MsgEnvFile
  | MsgClientError go_error
  | MsgWatcherCreate go_error
  | MsgWatchError go_error
  | MsgErr go_error
  | MsgHeader "string list"
  | MsgLength nat
  | MsgDataMap dataMap
  | MsgSuccess nat

text \<open>
  What the program does to the outside, in order: a line on standard output
  (\<^verbatim>\<open>fmt.Println\<close>), a line of the log, and the call \<^verbatim>\<open>req.Do(ctx, es)\<close> that hands a bulk
  request to the client \<open>es\<close> (which is nil when it is \<open>None\<close>).
\<close>

datatype event =
    Stdout string
  | Logged logmsg
  | BulkDo "client option" request

text \<open>
  The collaborators of the program, none of them code of the repository: the environment
  file and variables, the datastore client's constructor, the watcher, the file system,
  the gzip layer, \<^verbatim>\<open>json.Marshal\<close>, the transport of a bulk request and the decoder of a
  response body. A function that returns a value and an error in Go returns a pair or a
  sum here.

  The gzip stream is handed over as the CSV reader will lex it: one entry per record,
  the fields read and the error met while reading them (a malformed quote, a corrupt
  stream).
\<close>

type_synonym csv_stream = "(string list \<times> go_error option) list"

record env =
  godotenv_Load :: "string \<Rightarrow> go_error option"
  os_Getenv :: "string \<Rightarrow> string"
  elasticsearch_NewClient :: "config \<Rightarrow> client option \<times> go_error option"
  fsnotify_NewWatcher :: "go_error + watcher"
  watcher_Add :: "watcher \<Rightarrow> string \<Rightarrow> go_error option"
  os_Open :: "string \<Rightarrow> go_error + string"
  gzip_NewReader :: "string \<Rightarrow> go_error + csv_stream"
  json_Marshal :: "dataMap \<Rightarrow> go_error + string"
  bulk_Do :: "client \<Rightarrow> request \<Rightarrow> go_error + response"
  json_Decode :: "string \<Rightarrow> go_error + resBody"

text \<open>A computation's result: what it did to the outside, and its value.\<close>

definition emit :: "event list \<Rightarrow> event list \<times> 'a \<Rightarrow> event list \<times> 'a" where
  "emit out r = (out @ fst r, snd r)"

definition log_Fatal :: "logmsg \<Rightarrow> event list \<times> (exit + 'a)" where
  "log_Fatal msg = ([Logged msg], Inl (OsExit 1))"

section \<open>The CSV reader\<close>

text \<open>
  \<^verbatim>\<open>encoding/csv\<close> of Go's standard library, at the level of records. The program builds
  the reader with \<^verbatim>\<open>csv.NewReader\<close> and sets only \<^verbatim>\<open>Comma\<close>, so \<^verbatim>\<open>FieldsPerRecord\<close> starts
  at 0: the first record read fixes the number of fields, and a later record with another
  number of fields is returned with \<^verbatim>\<open>ErrFieldCount\<close>. \<^verbatim>\<open>ReadAll\<close> reads to the end of the
  input; at the first error other than \<^verbatim>\<open>io.EOF\<close> it returns nil records and the error.
\<close>

record csv_Reader =
  FieldsPerRecord :: int
  pending :: csv_stream

definition io_EOF :: go_error where
  "io_EOF = ''EOF''"

definition ErrFieldCount :: go_error where
  "ErrFieldCount = ''wrong number of fields''"

definition csv_NewReader :: "csv_stream \<Rightarrow> csv_Reader" where
  "csv_NewReader gz = \<lparr>FieldsPerRecord = 0, pending = gz\<rparr>"

definition readRecord :: "csv_Reader \<Rightarrow> (string list \<times> go_error option) \<times> csv_Reader" where
  "readRecord r =
     (case pending r of
        [] \<Rightarrow> (([], Some io_EOF), r)
      | (dst, err) # rest \<Rightarrow>
          (if FieldsPerRecord r > 0 then
             (if int (length dst) \<noteq> FieldsPerRecord r \<and> err = None
              then ((dst, Some ErrFieldCount), r\<lparr>pending := rest\<rparr>)
              else ((dst, err), r\<lparr>pending := rest\<rparr>))
           else if FieldsPerRecord r = 0 then
             ((dst, err), r\<lparr>FieldsPerRecord := int (length dst), pending := rest\<rparr>)
           else ((dst, err), r\<lparr>pending := rest\<rparr>)))"

definition csv_Read :: "csv_Reader \<Rightarrow> (string list \<times> go_error option) \<times> csv_Reader" where
  "csv_Read r = readRecord r"

lemma readRecord_shrinks:
  "snd (fst (readRecord r)) \<noteq> Some io_EOF \<Longrightarrow>
     length (pending (snd (readRecord r))) < length (pending r)"
  by (auto simp: readRecord_def split: list.splits if_splits)

function csv_ReadAll ::
  "csv_Reader \<Rightarrow> string list list \<Rightarrow> (string list list \<times> go_error option) \<times> csv_Reader" where
  "csv_ReadAll r records =
     (let res = readRecord r; record = fst (fst res); err = snd (fst res); r' = snd res in
        if err = Some io_EOF then ((records, None), r')
        else if err \<noteq> None then (([], err), r')
        else csv_ReadAll r' (records @ [record]))"
  by pat_completeness auto
termination
  by (relation "measure (\<lambda>(r, records). length (pending r))")
     (simp_all add: readRecord_shrinks)

section \<open>The record mapper\<close>

text \<open>
  Lines 131 to 133: \<^verbatim>\<open>for j, header := range headers { dataMap[header] = row[j] }\<close>.
  The read \<^verbatim>\<open>row[j]\<close> panics when \<open>j\<close> is not below the row's length; an assignment to a
  key already present replaces its value.
\<close>

fun range_headers :: "nat \<Rightarrow> string list \<Rightarrow> string list \<Rightarrow> dataMap \<Rightarrow> exit + dataMap" where
  "range_headers j [] row dataMap = Inr dataMap"
| "range_headers j (header # headers) row dataMap =
     (if j < length row
      then range_headers (Suc j) headers row (dataMap(header \<mapsto> row ! j))
      else Inl (PanicIndexOutOfRange j (length row)))"

text \<open>Lines 129 to 135: one map per row, appended to \<^verbatim>\<open>dataList\<close> in the rows' order.\<close>

fun mapRows :: "string list \<Rightarrow> string list list \<Rightarrow> dataMap list \<Rightarrow> exit + dataMap list" where
  "mapRows headers [] dataList = Inr dataList"
| "mapRows headers (row # rows) dataList =
     (case range_headers 0 headers row Map.empty of
        Inl p \<Rightarrow> Inl p
      | Inr dataMap \<Rightarrow> mapRows headers rows (dataList @ [dataMap]))"

section \<open>The batch indexer\<close>

text \<open>The four errors \<^verbatim>\<open>bulkInsertToElasticsearch\<close> returns, by their \<^verbatim>\<open>fmt.Errorf\<close>.\<close>

datatype bulk_error =
    ErrMarshalling go_error
  | ErrIndexingFailure go_error
  | ErrParsingBody go_error
  | ErrIndexingBatch resBody

definition newline :: string where
  "newline = [CHR 0x0A]"

text \<open>Line 146: the directive of one document, the index name and the line end filled in.\<close>

definition meta :: string where
  \<open>meta = ''{ "create" : { "_index" : "'' @ ''twamp-data'' @ ''" } }'' @ newline\<close>

text \<open>
  Lines 143 to 156: per map, a log line, then the directive and the map's JSON with a
  line end are written to the buffer; a map that cannot be marshalled ends the function.
\<close>

fun range_dataList :: "env \<Rightarrow> dataMap list \<Rightarrow> string \<Rightarrow> event list \<times> (bulk_error + string)" where
  "range_dataList env [] buf = ([], Inr buf)"
| "range_dataList env (dataMap # dataList) buf =
     emit [Logged (MsgDataMap dataMap)]
       (case json_Marshal env dataMap of
          Inl err \<Rightarrow> ([], Inl (ErrMarshalling err))
        | Inr data \<Rightarrow> range_dataList env dataList (buf @ meta @ (data @ newline)))"

text \<open>
  Lines 140 to 179. \<^verbatim>\<open>req.Do(context.Background(), es)\<close> at line 163 sends the request
  through the client; \<^verbatim>\<open>main\<close> keeps a nil client when \<^verbatim>\<open>NewClient\<close> has failed, and the
  call through it dereferences nil and panics, so no response exists then.
\<close>

definition bulkInsertToElasticsearch ::
  "env \<Rightarrow> dataMap list \<Rightarrow> client option \<Rightarrow> event list \<times> (exit + bulk_error option)" where
  "bulkInsertToElasticsearch env dataList es =
     (case range_dataList env dataList [] of
        (out, Inl e) \<Rightarrow> (out, Inr (Some e))
      | (out, Inr buf) \<Rightarrow>
          (let req = \<lparr>Body = buf, Refresh = ''true''\<rparr> in
           emit (out @ [BulkDo es req])
             (case es of
                None \<Rightarrow> ([], Inl PanicNilDereference)
              | Some c \<Rightarrow>
                  (case bulk_Do env c req of
                     Inl err \<Rightarrow> ([], Inr (Some (ErrIndexingFailure err)))
                   | Inr res \<Rightarrow>
                       (if IsError res then
                          (case json_Decode env (ResBody res) of
                             Inl err \<Rightarrow> ([], Inr (Some (ErrParsingBody err)))
                           | Inr resBody \<Rightarrow> ([], Inr (Some (ErrIndexingBatch resBody))))
                        else ([Logged (MsgSuccess (length dataList))], Inr None))))))"

section \<open>Processing one file\<close>

text \<open>
  Lines 104 to 138. The header is logged before the error of reading it is looked at;
  the error of \<^verbatim>\<open>ReadAll\<close> is dropped (\<^verbatim>\<open>rows, _ := reader.ReadAll()\<close>), and so is the one
  \<^verbatim>\<open>bulkInsertToElasticsearch\<close> returns; a panic inside it is not.
\<close>

definition processGzipFile :: "env \<Rightarrow> client option \<Rightarrow> string \<Rightarrow> event list \<times> (exit + unit)" where
  "processGzipFile env es filePath =
     (case os_Open env filePath of
        Inl err \<Rightarrow> log_Fatal (MsgErr err)
      | Inr f \<Rightarrow>
          (case gzip_NewReader env f of
             Inl err \<Rightarrow> log_Fatal (MsgErr err)
           | Inr gz \<Rightarrow>
               (case csv_Read (csv_NewReader gz) of
                  ((headers, err), reader) \<Rightarrow>
                    emit [Logged (MsgHeader headers)]
                      (case err of
                         Some e \<Rightarrow> log_Fatal (MsgErr e)
                       | None \<Rightarrow>
                           (case mapRows headers (fst (fst (csv_ReadAll reader []))) [] of
                              Inl p \<Rightarrow> ([], Inl p)
                            | Inr dataList \<Rightarrow>
                                emit [Logged (MsgLength (length dataList))]
                                  (case bulkInsertToElasticsearch env dataList es of
                                     (out, Inl p) \<Rightarrow> (out, Inl p)
                                   | (out, Inr err) \<Rightarrow> (out, Inr ())))))))"

section \<open>The watcher\<close>

text \<open>\<^verbatim>\<open>strings.HasSuffix\<close>: \<^verbatim>\<open>len(s) >= len(suffix) && s[len(s)-len(suffix):] == suffix\<close>.\<close>

definition HasSuffix :: "string \<Rightarrow> string \<Rightarrow> bool" where
  "HasSuffix s suff \<longleftrightarrow> length s \<ge> length suff \<and> drop (length s - length suff) s = suff"

text \<open>Lines 81 to 84: what the loop does with one event it received.\<close>

definition handle_event :: "env \<Rightarrow> client option \<Rightarrow> fs_event \<Rightarrow> event list \<times> (exit + unit)" where
  "handle_event env es event =
     (if Op event AND fsnotify_Create = fsnotify_Create \<and> HasSuffix (Name event) ''.gz''
      then emit [Stdout (''New .gz file detected:'' @ '' '' @ Name event @ newline)]
             (processGzipFile env es (Name event))
      else ([], Inr ()))"

text \<open>
  Lines 74 to 92, over the messages the channels deliver: the goroutine returns when a
  channel is closed, and waits in its \<^verbatim>\<open>select\<close> when nothing more arrives. An exit
  inside the handler ends the process, so the later messages are never taken.
\<close>

datatype loop_status = Waiting | LoopReturned

fun watch_loop :: "env \<Rightarrow> client option \<Rightarrow> watch_msg list \<Rightarrow> event list \<times> (exit + loop_status)" where
  "watch_loop env es [] = ([], Inr Waiting)"
| "watch_loop env es (EventsClosed # msgs) = ([], Inr LoopReturned)"
| "watch_loop env es (ErrorsClosed # msgs) = ([], Inr LoopReturned)"
| "watch_loop env es (ErrorMsg err # msgs) =
     emit [Logged (MsgWatchError err)] (watch_loop env es msgs)"
| "watch_loop env es (EventMsg event # msgs) =
     (case handle_event env es event of
        (out, Inl x) \<Rightarrow> (out, Inl x)
      | (out, Inr u) \<Rightarrow> emit out (watch_loop env es msgs))"

text \<open>
  Lines 38 to 102. The goroutine is started before \<^verbatim>\<open>watcher.Add\<close>, but nothing is
  watched, and so no message arrives, before \<^verbatim>\<open>Add\<close> has returned; when \<^verbatim>\<open>Add\<close> fails
  the process exits. \<open>msgs\<close> is what the channels deliver afterwards. When the loop has
  returned or waits, \<^verbatim>\<open>main\<close> blocks in \<^verbatim>\<open>select {}\<close>.
\<close>

definition main :: "env \<Rightarrow> watch_msg list \<Rightarrow> event list \<times> (exit + loop_status)" where
  "main env msgs =
     (case godotenv_Load env ''.env'' of
        Some err \<Rightarrow> log_Fatal MsgEnvFile
      | None \<Rightarrow>
          (let directoryPath = os_Getenv env ''FILE_PATH'';
               esURL = os_Getenv env ''ES_SERVER'';
               esUser = os_Getenv env ''ES_USER'';
               esPassword = os_Getenv env ''ES_PASSWORD'';
               cfg = \<lparr>Addresses = [esURL], Username = esUser, Password = esPassword,
                      InsecureSkipVerify = True\<rparr>;
               es = fst (elasticsearch_NewClient env cfg);
               err = snd (elasticsearch_NewClient env cfg)
           in emit (case err of Some e \<Rightarrow> [Logged (MsgClientError e)] | None \<Rightarrow> [])
                (case fsnotify_NewWatcher env of
                   Inl e \<Rightarrow> log_Fatal (MsgWatcherCreate e)
                 | Inr watcher \<Rightarrow>
                     (case watcher_Add env watcher directoryPath of
                        Some e \<Rightarrow> log_Fatal (MsgErr e)
                      | None \<Rightarrow> watch_loop env es msgs))))"

section \<open>Observations\<close>

text \<open>The bulk requests handed to the client, and the batch sizes reported as indexed,
  in the order of the events.\<close>

fun bulk_requests :: "event list \<Rightarrow> (client option \<times> request) list" where
  "bulk_requests [] = []"
| "bulk_requests (BulkDo es req # out) = (es, req) # bulk_requests out"
| "bulk_requests (Stdout s # out) = bulk_requests out"
| "bulk_requests (Logged msg # out) = bulk_requests out"

fun successes :: "event list \<Rightarrow> nat list" where
  "successes [] = []"
| "successes (Logged (MsgSuccess n) # out) = n # successes out"
| "successes (e # out) = successes out"

section \<open>An example environment\<close>

text \<open>
  A small world to run the program in: a watched directory \<^verbatim>\<open>/data\<close> with a file of a
  header and two rows, a file of a header only, a file whose second row lacks a cell, a
  file that cannot be opened, and a datastore that accepts what it is sent.
\<close>

definition probe_headers :: "string list" where
  "probe_headers = [''session_id'', ''source_port'', ''@timestamp'']"

definition probe_row1 :: "string list" where
  "probe_row1 = [''1'', ''5000'', ''2024-01-01T00:00:00Z'']"

definition probe_row2 :: "string list" where
  "probe_row2 = [''2'', ''5001'', ''2024-01-01T00:01:00Z'']"

definition probe_json :: "dataMap \<Rightarrow> string" where
  \<open>probe_json m =
     ''{"session_id":"'' @ (case m ''session_id'' of Some v \<Rightarrow> v | None \<Rightarrow> '''') @ ''"}''\<close>

definition probe_env :: env where
  \<open>probe_env =
     \<lparr>godotenv_Load = (\<lambda>path. None),
      os_Getenv = (\<lambda>key. if key = ''FILE_PATH'' then ''/data'' else ''''),
      elasticsearch_NewClient = (\<lambda>cfg. (Some (Client cfg), None)),
      fsnotify_NewWatcher = Inr (Watcher 0),
      watcher_Add = (\<lambda>w path. None),
      os_Open = (\<lambda>path. if path = ''/data/missing.gz'' then Inl ''no such file or directory''
                          else Inr path),
      gzip_NewReader = (\<lambda>f.
         if f = ''/data/probe_001.gz''
         then Inr [(probe_headers, None), (probe_row1, None), (probe_row2, None)]
         else if f = ''/data/header_only.gz'' then Inr [(probe_headers, None)]
         else if f = ''/data/short_row.gz''
         then Inr [(probe_headers, None), (probe_row1, None), ([''2'', ''5001''], None)]
         else Inl ''gzip: invalid header''),
      json_Marshal = (\<lambda>m. Inr (probe_json m)),
      bulk_Do = (\<lambda>es req. Inr \<lparr>IsError = False, ResBody = ''{"errors":false}''\<rparr>),
      json_Decode = (\<lambda>body. Inl ''invalid character'')\<rparr>\<close>

text \<open>Two maps of that file's shape, and worlds that differ from the example in one
  collaborator: a marshaller that refuses the second map, a gateway that answers a bulk
  request with an error page that is no JSON, a datastore that rejects the batch with
  a JSON body, and a client that cannot be constructed; and a client that was.\<close>

definition probe_map1 :: dataMap where
  "probe_map1 = [''session_id'' \<mapsto> ''1'', ''source_port'' \<mapsto> ''5000'']"

definition probe_map2 :: dataMap where
  "probe_map2 = [''session_id'' \<mapsto> ''2'', ''source_port'' \<mapsto> ''5001'']"

definition probe_client :: client where
  "probe_client =
     Client \<lparr>Addresses = [''https://es.example:9200''], Username = ''probe'',
             Password = ''secret'', InsecureSkipVerify = True\<rparr>"

definition marshal_fail_env :: env where
  "marshal_fail_env =
     probe_env\<lparr>json_Marshal := (\<lambda>m. if m ''session_id'' = Some ''2''
                                      then Inl ''json: unsupported value''
                                      else Inr (probe_json m))\<rparr>"



definition no_client_env :: env where
  "no_client_env =
     probe_env\<lparr>elasticsearch_NewClient := (\<lambda>cfg. (None, Some ''cannot create client''))\<rparr>"

section \<open>Properties of the parts\<close>

lemma range_headers_ok:
  "j + length headers \<le> length row \<Longrightarrow>
     range_headers j headers row dataMap = Inr (dataMap(headers [\<mapsto>] drop j row))"
proof (induction headers arbitrary: j dataMap)
  case Nil
  then show ?case by simp
next
  case (Cons header headers)
  then have j: "j < length row" by simp
  then have d: "drop j row = row ! j # drop (Suc j) row"
    by (simp add: Cons_nth_drop_Suc)
  have "range_headers j (header # headers) row dataMap =
          range_headers (Suc j) headers row (dataMap(header \<mapsto> row ! j))"
    using j by simp
  also have "\<dots> = Inr ((dataMap(header \<mapsto> row ! j))(headers [\<mapsto>] drop (Suc j) row))"
    using Cons.prems by (intro Cons.IH) simp
  also have "\<dots> = Inr (dataMap(header # headers [\<mapsto>] drop j row))"
    by (simp only: d map_upds_Cons)
  finally show ?case .
qed

lemma range_headers_short:
  "j \<le> length row \<Longrightarrow> length row < j + length headers \<Longrightarrow>
     range_headers j headers row dataMap = Inl (PanicIndexOutOfRange (length row) (length row))"
proof (induction headers arbitrary: j dataMap)
  case Nil
  then show ?case by simp
next
  case (Cons header headers)
  then show ?case by (cases "j < length row") auto
qed

lemma range_headers_panic_iff:
  "j \<le> length row \<Longrightarrow>
     (\<exists>p. range_headers j headers row dataMap = Inl p) \<longleftrightarrow> length row < j + length headers"
  using range_headers_ok [of j headers row dataMap] range_headers_short [of j row headers dataMap]
  by (cases "length row < j + length headers") auto

lemma mapRows_ok:
  "\<forall>row\<in>set rows. length headers \<le> length row \<Longrightarrow>
     mapRows headers rows dataList =
       Inr (dataList @ map (\<lambda>row. Map.empty(headers [\<mapsto>] row)) rows)"
  by (induction rows arbitrary: dataList) (simp_all add: range_headers_ok)

lemma mapRows_short:
  "\<exists>row\<in>set rows. length row < length headers \<Longrightarrow>
     \<exists>n. mapRows headers rows dataList = Inl (PanicIndexOutOfRange n n)"
proof (induction rows arbitrary: dataList)
  case Nil
  then show ?case by simp
next
  case (Cons row rows)
  show ?case
  proof (cases "length row < length headers")
    case True
    then show ?thesis by (simp add: range_headers_short)
  next
    case False
    with Cons.prems have "\<exists>row\<in>set rows. length row < length headers" by auto
    from Cons.IH [OF this] False show ?thesis by (simp add: range_headers_ok)
  qed
qed

declare csv_ReadAll.simps [simp del]

lemma csv_Read_header:
  "csv_Read (csv_NewReader ((headers, err) # rest)) =
     ((headers, err), \<lparr>FieldsPerRecord = int (length headers), pending = rest\<rparr>)"
  by (simp add: csv_Read_def csv_NewReader_def readRecord_def)

lemma csv_Read_empty:
  "csv_Read (csv_NewReader []) = (([], Some io_EOF), csv_NewReader [])"
  by (simp add: csv_Read_def csv_NewReader_def readRecord_def)

lemma csv_ReadAll_end:
  "pending r = [] \<Longrightarrow> csv_ReadAll r records = ((records, None), r)"
  by (subst csv_ReadAll.simps) (simp add: readRecord_def)

lemma csv_ReadAll_wellformed:
  "FieldsPerRecord r = int n \<Longrightarrow> pending r = map (\<lambda>row. (row, None)) rows \<Longrightarrow>
     \<forall>row\<in>set rows. length row = n \<Longrightarrow>
     fst (csv_ReadAll r records) = (records @ rows, None)"
proof (induction rows arbitrary: r records)
  case Nil
  then show ?case by (simp add: csv_ReadAll_end)
next
  case (Cons row rows)
  let ?r' = "r\<lparr>pending := map (\<lambda>row. (row, None)) rows\<rparr>"
  from Cons.prems have rd: "readRecord r = ((row, None), ?r')"
    by (auto simp: readRecord_def)
  have "fst (csv_ReadAll ?r' (records @ [row])) = ((records @ [row]) @ rows, None)"
    using Cons.prems by (intro Cons.IH) simp_all
  then show ?case
    by (subst csv_ReadAll.simps) (simp add: rd io_EOF_def)
qed

lemma csv_ReadAll_error_nil:
  "snd (fst (csv_ReadAll r records)) \<noteq> None \<Longrightarrow> fst (fst (csv_ReadAll r records)) = []"
proof (induction r records rule: csv_ReadAll.induct)
  case (1 r records)
  show ?case
  proof (cases "snd (fst (readRecord r)) = Some io_EOF")
    case True
    with "1.prems" show ?thesis by (subst (asm) csv_ReadAll.simps) (simp add: Let_def)
  next
    case eof: False
    show ?thesis
    proof (cases "snd (fst (readRecord r)) = None")
      case True
      have eq: "csv_ReadAll r records =
          csv_ReadAll (snd (readRecord r)) (records @ [fst (fst (readRecord r))])"
        by (subst csv_ReadAll.simps) (simp add: Let_def True)
      from "1.IH" [OF refl refl refl refl eof] True "1.prems" show ?thesis
        by (simp add: eq)
    next
      case False
      with eof show ?thesis by (subst csv_ReadAll.simps) (simp add: Let_def)
    qed
  qed
qed

lemma csv_ReadAll_arity:
  "0 < FieldsPerRecord r \<Longrightarrow> \<forall>row\<in>set records. int (length row) = FieldsPerRecord r \<Longrightarrow>
     \<forall>row\<in>set (fst (fst (csv_ReadAll r records))). int (length row) = FieldsPerRecord r"
proof (induction r records rule: csv_ReadAll.induct)
  case (1 r records)
  show ?case
  proof (cases "snd (fst (readRecord r)) = Some io_EOF")
    case True
    with "1.prems" show ?thesis by (subst csv_ReadAll.simps) (simp add: Let_def)
  next
    case eof: False
    show ?thesis
    proof (cases "snd (fst (readRecord r)) = None")
      case True
      let ?r' = "snd (readRecord r)" and ?row = "fst (fst (readRecord r))"
      have eq: "csv_ReadAll r records = csv_ReadAll ?r' (records @ [?row])"
        by (subst csv_ReadAll.simps) (simp add: Let_def True)
      from True "1.prems"(1) have fpr: "FieldsPerRecord ?r' = FieldsPerRecord r"
        and len: "int (length ?row) = FieldsPerRecord r"
        by (auto simp: readRecord_def io_EOF_def split: list.splits if_splits)
      have "\<forall>row\<in>set (fst (fst (csv_ReadAll ?r' (records @ [?row])))).
              int (length row) = FieldsPerRecord ?r'"
        using "1.prems" fpr len by (intro "1.IH" [OF refl refl refl refl eof]) (simp_all add: True)
      then show ?thesis by (simp add: eq fpr)
    next
      case False
      with eof show ?thesis by (subst csv_ReadAll.simps) (simp add: Let_def)
    qed
  qed
qed

lemma csv_ReadAll_mismatch:
  "0 < n \<Longrightarrow> FieldsPerRecord r = int n \<Longrightarrow> \<forall>x\<in>set (pending r). snd x = None \<Longrightarrow>
     \<exists>x\<in>set (pending r). length (fst x) \<noteq> n \<Longrightarrow>
     fst (csv_ReadAll r records) = ([], Some ErrFieldCount)"
proof (induction "pending r" arbitrary: r records)
  case Nil
  then show ?case by simp
next
  case (Cons x rest)
  obtain row where x: "x = (row, None)"
    using Cons.prems(3) Cons.hyps(2) [symmetric] by (cases x) auto
  show ?case
  proof (cases "length row = n")
    case True
    let ?r' = "r\<lparr>pending := rest\<rparr>"
    from Cons.prems Cons.hyps(2) [symmetric] True x have rd: "readRecord r = ((row, None), ?r')"
      by (simp add: readRecord_def)
    have "fst (csv_ReadAll ?r' (records @ [row])) = ([], Some ErrFieldCount)"
      using Cons.prems Cons.hyps(2) [symmetric] True x by (intro Cons.hyps(1)) auto
    then show ?thesis
      by (subst csv_ReadAll.simps) (simp add: rd io_EOF_def)
  next
    case False
    from Cons.prems Cons.hyps(2) [symmetric] False x
    have rd: "readRecord r = ((row, Some ErrFieldCount), r\<lparr>pending := rest\<rparr>)"
      by (simp add: readRecord_def)
    show ?thesis
      by (subst csv_ReadAll.simps) (simp add: rd io_EOF_def ErrFieldCount_def)
  qed
qed

lemma bulk_requests_append: "bulk_requests (a @ b) = bulk_requests a @ bulk_requests b"
  by (induction a rule: bulk_requests.induct) simp_all

lemma successes_append: "successes (a @ b) = successes a @ successes b"
  by (induction a rule: successes.induct) simp_all

lemma range_dataList_ok:
  "\<forall>m\<in>set dataList. json_Marshal env m = Inr (data m) \<Longrightarrow>
     range_dataList env dataList buf =
       (map (\<lambda>m. Logged (MsgDataMap m)) dataList,
        Inr (buf @ concat (map (\<lambda>m. meta @ (data m @ newline)) dataList)))"
  by (induction dataList arbitrary: buf) (simp_all add: emit_def)

lemma range_dataList_quiet:
  "bulk_requests (fst (range_dataList env dataList buf)) = [] \<and>
   successes (fst (range_dataList env dataList buf)) = []"
  by (induction dataList arbitrary: buf) (simp_all add: emit_def split: sum.splits)

lemma range_dataList_fail:
  "m \<in> set dataList \<Longrightarrow> json_Marshal env m = Inl err \<Longrightarrow>
     \<exists>m'\<in>set dataList. \<exists>err'. json_Marshal env m' = Inl err' \<and>
        snd (range_dataList env dataList buf) = Inl (ErrMarshalling err')"
proof (induction dataList arbitrary: buf)
  case Nil
  then show ?case by simp
next
  case (Cons a dataList)
  show ?case
  proof (cases "json_Marshal env a")
    case (Inl e)
    then show ?thesis by (auto simp: emit_def)
  next
    case (Inr d)
    with Cons.prems have "m \<in> set dataList" by auto
    from Cons.IH [OF this Cons.prems(2)] Inr show ?thesis by (auto simp: emit_def)
  qed
qed

lemma bulkInsert_marshal_fail:
  assumes "m \<in> set dataList" and "json_Marshal env m = Inl err"
  shows "(\<exists>m'\<in>set dataList. \<exists>err'. json_Marshal env m' = Inl err' \<and>
            snd (bulkInsertToElasticsearch env dataList es) = Inr (Some (ErrMarshalling err'))) \<and>
         bulk_requests (fst (bulkInsertToElasticsearch env dataList es)) = []"
proof -
  from range_dataList_fail [OF assms, of "[]"] obtain m' err' where
    m': "m' \<in> set dataList" "json_Marshal env m' = Inl err'"
    and r: "snd (range_dataList env dataList []) = Inl (ErrMarshalling err')" by blast
  obtain out where o: "range_dataList env dataList [] = (out, Inl (ErrMarshalling err'))"
    using r by (cases "range_dataList env dataList []") auto
  have q: "bulk_requests out = []"
    using range_dataList_quiet [of env dataList "[]"] by (simp add: o)
  show ?thesis using m' q by (auto simp: bulkInsertToElasticsearch_def o)
qed

lemma bulkInsert_requests:
  assumes "\<forall>m\<in>set dataList. json_Marshal env m = Inr (data m)"
  shows "bulk_requests (fst (bulkInsertToElasticsearch env dataList es)) =
           [(es, \<lparr>Body = concat (map (\<lambda>m. meta @ (data m @ newline)) dataList),
                  Refresh = ''true''\<rparr>)]"
proof -
  have q: "bulk_requests (map (\<lambda>m. Logged (MsgDataMap m)) dataList) = []"
    by (induction dataList) simp_all
  show ?thesis
    by (simp add: bulkInsertToElasticsearch_def range_dataList_ok [OF assms] emit_def Let_def
        bulk_requests_append q split: sum.splits option.splits)
qed

lemma bulkInsert_empty_requests:
  "bulk_requests (fst (bulkInsertToElasticsearch env [] es)) =
     [(es, \<lparr>Body = [], Refresh = ''true''\<rparr>)]"
  using bulkInsert_requests [of "[]" env undefined es] by simp

text \<open>With a client, the indexer returns: it neither exits nor panics. Without one it
  never ends in the mapper's panic either.\<close>

lemma bulkInsert_returns:
  "\<exists>e. snd (bulkInsertToElasticsearch env dataList (Some c)) = Inr e"
  by (cases "range_dataList env dataList []")
     (auto simp: bulkInsertToElasticsearch_def emit_def Let_def split: sum.splits)

lemma bulkInsert_no_index_panic:
  "snd (bulkInsertToElasticsearch env dataList es) \<noteq> Inl (PanicIndexOutOfRange j n)"
  by (cases "range_dataList env dataList []")
     (auto simp: bulkInsertToElasticsearch_def emit_def Let_def split: sum.splits option.splits)


lemma successes_dataMaps: "successes (map (\<lambda>x. Logged (MsgDataMap (g x))) xs) = []"
  by (induction xs) simp_all

lemma map_upds_nth:
  "length xs = length ys \<Longrightarrow> i < length xs \<Longrightarrow> xs ! i \<notin> set (drop (Suc i) xs) \<Longrightarrow>
     (m(xs [\<mapsto>] ys)) (xs ! i) = Some (ys ! i)"
proof (induction xs arbitrary: ys i m)
  case Nil
  then show ?case by simp
next
  case (Cons x xs)
  then obtain y ys' where ys: "ys = y # ys'" by (cases ys) auto
  show ?case
  proof (cases i)
    case 0
    with Cons.prems ys show ?thesis by (simp add: map_upds_apply_nontin)
  next
    case (Suc k)
    with Cons.prems ys show ?thesis by (simp add: Cons.IH)
  qed
qed

lemma mapRows_rows_of_file:
  assumes "\<forall>row\<in>set rows. length row = length headers"
  shows "mapRows headers
           (fst (fst (csv_ReadAll \<lparr>FieldsPerRecord = int (length headers),
                                   pending = map (\<lambda>row. (row, None)) rows\<rparr> []))) [] =
         Inr (map (\<lambda>row. Map.empty(headers [\<mapsto>] row)) rows)"
proof -
  have "fst (csv_ReadAll \<lparr>FieldsPerRecord = int (length headers),
                          pending = map (\<lambda>row. (row, None)) rows\<rparr> []) = ([] @ rows, None)"
    using assms by (intro csv_ReadAll_wellformed [where n = "length headers"]) simp_all
  then show ?thesis using assms by (simp add: mapRows_ok)
qed


lemma processGzipFile_valid:
  assumes "os_Open env filePath = Inr f"
    and "gzip_NewReader env f = Inr ((headers, None) # map (\<lambda>row. (row, None)) rows)"
    and "\<forall>row\<in>set rows. length row = length headers"
  shows "processGzipFile env es filePath =
           emit [Logged (MsgHeader headers), Logged (MsgLength (length rows))]
             (fst (bulkInsertToElasticsearch env
                     (map (\<lambda>row. Map.empty(headers [\<mapsto>] row)) rows) es),
              case snd (bulkInsertToElasticsearch env
                     (map (\<lambda>row. Map.empty(headers [\<mapsto>] row)) rows) es) of
                Inl p \<Rightarrow> Inl p
              | Inr err \<Rightarrow> Inr ())"
  by (simp add: processGzipFile_def assms(1,2) csv_Read_header
      mapRows_rows_of_file [OF assms(3)] emit_def split: prod.splits sum.splits)

lemma processGzipFile_no_panic:
  "snd (processGzipFile env es filePath) \<noteq> Inl (PanicIndexOutOfRange j n)"
proof (cases "os_Open env filePath")
  case (Inl e)
  then show ?thesis by (simp add: processGzipFile_def log_Fatal_def)
next
  case f: (Inr f)
  show ?thesis
  proof (cases "gzip_NewReader env f")
    case (Inl e)
    with f show ?thesis by (simp add: processGzipFile_def log_Fatal_def)
  next
    case gz: (Inr gz)
    show ?thesis
    proof (cases gz)
      case Nil
      with f gz show ?thesis
        by (simp add: processGzipFile_def csv_Read_empty emit_def log_Fatal_def)
    next
      case (Cons x rest)
      obtain headers err where x: "x = (headers, err)" by (cases x)
      show ?thesis
      proof (cases err)
        case (Some e)
        with f gz Cons x show ?thesis
          by (simp add: processGzipFile_def csv_Read_header emit_def log_Fatal_def)
      next
        case None
        let ?r = "\<lparr>FieldsPerRecord = int (length headers), pending = rest\<rparr>"
        let ?rows = "fst (fst (csv_ReadAll ?r []))"
        let ?dl = "map (\<lambda>row. Map.empty(headers [\<mapsto>] row)) ?rows"
        have "\<forall>row\<in>set ?rows. length headers \<le> length row"
        proof (cases "headers = []")
          case True
          then show ?thesis by simp
        next
          case False
          then have "\<forall>row\<in>set ?rows. int (length row) = FieldsPerRecord ?r"
            by (intro csv_ReadAll_arity) simp_all
          then show ?thesis by simp
        qed
        then have m: "mapRows headers ?rows [] = Inr ([] @ ?dl)"
          by (rule mapRows_ok)
        obtain out res where b: "bulkInsertToElasticsearch env ?dl es = (out, res)"
          by (cases "bulkInsertToElasticsearch env ?dl es")
        with bulkInsert_no_index_panic [of env ?dl es j n]
        have "res \<noteq> Inl (PanicIndexOutOfRange j n)" by simp
        with f gz Cons x None m b show ?thesis
          by (auto simp: processGzipFile_def csv_Read_header emit_def split: sum.splits)
      qed
    qed
  qed
qed

lemma processGzipFile_no_rows:
  assumes "os_Open env filePath = Inr f"
    and "gzip_NewReader env f = Inr ((headers, None) # rest)"
    and "fst (fst (csv_ReadAll (snd (csv_Read (csv_NewReader ((headers, None) # rest)))) [])) = []"
  shows "processGzipFile env es filePath =
           emit [Logged (MsgHeader headers), Logged (MsgLength 0)]
             (fst (bulkInsertToElasticsearch env [] es),
              case snd (bulkInsertToElasticsearch env [] es) of
                Inl p \<Rightarrow> Inl p
              | Inr err \<Rightarrow> Inr ())"
  using assms(3)
  by (simp add: processGzipFile_def assms(1,2) csv_Read_header emit_def
      split: prod.splits sum.splits)

lemma bulkInsert_empty_probe:
  "bulkInsertToElasticsearch probe_env [] (Some probe_client) =
     ([BulkDo (Some probe_client) \<lparr>Body = [], Refresh = ''true''\<rparr>, Logged (MsgSuccess 0)],
      Inr None)"
  by (simp add: bulkInsertToElasticsearch_def probe_env_def emit_def)

lemma probe_short_row:
  "processGzipFile probe_env (Some probe_client) ''/data/short_row.gz'' =
     ([Logged (MsgHeader probe_headers), Logged (MsgLength 0),
       BulkDo (Some probe_client) \<lparr>Body = [], Refresh = ''true''\<rparr>, Logged (MsgSuccess 0)],
      Inr ())"
proof -
  let ?rest = "[(probe_row1, None :: go_error option), ([''2'', ''5001''], None)]"
  have h1: "os_Open probe_env ''/data/short_row.gz'' = Inr ''/data/short_row.gz''"
    by (simp add: probe_env_def)
  have h2: "gzip_NewReader probe_env ''/data/short_row.gz'' = Inr ((probe_headers, None) # ?rest)"
    by (simp add: probe_env_def)
  have "fst (csv_ReadAll \<lparr>FieldsPerRecord = int (length probe_headers), pending = ?rest\<rparr> []) =
      ([], Some ErrFieldCount)"
    by (intro csv_ReadAll_mismatch [where n = "length probe_headers"])
       (simp_all add: probe_headers_def)
  then have rows: "fst (fst (csv_ReadAll (snd (csv_Read (csv_NewReader
      ((probe_headers, None) # ?rest)))) [])) = []"
    by (simp add: csv_Read_header)
  show ?thesis
    by (simp add: processGzipFile_no_rows [OF h1 h2 rows] bulkInsert_empty_probe emit_def)
qed

lemma HasSuffix_iff_suffix: "HasSuffix s suff \<longleftrightarrow> suffix suff s"
proof
  assume "HasSuffix s suff"
  then have "s = take (length s - length suff) s @ suff"
    by (metis HasSuffix_def append_take_drop_id)
  then show "suffix suff s" by (rule suffixI)
next
  assume "suffix suff s"
  then obtain zs where "s = zs @ suff" by (auto simp: suffix_def)
  then show "HasSuffix s suff" by (simp add: HasSuffix_def)
qed

section \<open>The claims\<close>

text \<open>
  C1. For a file that opens, decompresses and parses into a header and rows of the
  header's length, \<^verbatim>\<open>processGzipFile\<close> logs the header and the number of rows and hands
  to the batch indexer, in the rows' order, exactly the map that sends the header's names
  to the row's cells by position: its keys are the header's names, and a name's value is
  the cell at the name's (last) position. It ends as the indexer does: with a client it
  returns, and a panic of the indexer (the nil client) is passed on.
\<close>

theorem processGzipFile_records:
  assumes "os_Open env filePath = Inr f"
    and "gzip_NewReader env f = Inr ((headers, None) # map (\<lambda>row. (row, None)) rows)"
    and "\<forall>row\<in>set rows. length row = length headers"
  shows "processGzipFile env es filePath =
           emit [Logged (MsgHeader headers), Logged (MsgLength (length rows))]
             (fst (bulkInsertToElasticsearch env
                     (map (\<lambda>row. Map.empty(headers [\<mapsto>] row)) rows) es),
              case snd (bulkInsertToElasticsearch env
                     (map (\<lambda>row. Map.empty(headers [\<mapsto>] row)) rows) es) of
                Inl p \<Rightarrow> Inl p
              | Inr err \<Rightarrow> Inr ()) \<and>
         (\<forall>c. es = Some c \<longrightarrow> snd (processGzipFile env es filePath) = Inr ()) \<and>
         (\<forall>row\<in>set rows.
            dom (Map.empty(headers [\<mapsto>] row)) = set headers \<and>
            (\<forall>i<length headers. headers ! i \<notin> set (drop (Suc i) headers) \<longrightarrow>
               (Map.empty(headers [\<mapsto>] row)) (headers ! i) = Some (row ! i)))"
proof (intro conjI ballI allI impI)
  note p = processGzipFile_valid [OF assms, of es]
  show "processGzipFile env es filePath =
           emit [Logged (MsgHeader headers), Logged (MsgLength (length rows))]
             (fst (bulkInsertToElasticsearch env
                     (map (\<lambda>row. Map.empty(headers [\<mapsto>] row)) rows) es),
              case snd (bulkInsertToElasticsearch env
                     (map (\<lambda>row. Map.empty(headers [\<mapsto>] row)) rows) es) of
                Inl p \<Rightarrow> Inl p
              | Inr err \<Rightarrow> Inr ())"
    by (rule p)
  fix c assume es: "es = Some c"
  obtain e where "snd (bulkInsertToElasticsearch env
      (map (\<lambda>row. Map.empty(headers [\<mapsto>] row)) rows) (Some c)) = Inr e"
    using bulkInsert_returns by blast
  then show "snd (processGzipFile env es filePath) = Inr ()"
    unfolding p by (simp add: es emit_def)
next
  fix row assume "row \<in> set rows"
  with assms(3) have len: "length headers = length row" by simp
  then show "dom (Map.empty(headers [\<mapsto>] row)) = set headers"
    by (simp add: dom_map_upds)
  fix i assume "i < length headers" "headers ! i \<notin> set (drop (Suc i) headers)"
  with len show "(Map.empty(headers [\<mapsto>] row)) (headers ! i) = Some (row ! i)"
    by (simp add: map_upds_nth)
qed

theorem processGzipFile_records_witness:
  "os_Open probe_env ''/data/probe_001.gz'' = Inr ''/data/probe_001.gz'' \<and>
   gzip_NewReader probe_env ''/data/probe_001.gz'' =
     Inr ((probe_headers, None) # map (\<lambda>row. (row, None)) [probe_row1, probe_row2]) \<and>
   length probe_row1 = length probe_headers \<and> length probe_row2 = length probe_headers \<and>
   fst (processGzipFile probe_env (Some probe_client) ''/data/probe_001.gz'') =
     [Logged (MsgHeader probe_headers), Logged (MsgLength 2)] @
     fst (bulkInsertToElasticsearch probe_env
          [[''session_id'' \<mapsto> ''1'', ''source_port'' \<mapsto> ''5000'',
            ''@timestamp'' \<mapsto> ''2024-01-01T00:00:00Z''],
           [''session_id'' \<mapsto> ''2'', ''source_port'' \<mapsto> ''5001'',
            ''@timestamp'' \<mapsto> ''2024-01-01T00:01:00Z'']] (Some probe_client)) \<and>
   snd (processGzipFile probe_env (Some probe_client) ''/data/probe_001.gz'') = Inr () \<and>
   (Map.empty(probe_headers [\<mapsto>] probe_row2)) ''source_port'' = Some ''5001''"
proof -
  have h1: "os_Open probe_env ''/data/probe_001.gz'' = Inr ''/data/probe_001.gz''"
    by (simp add: probe_env_def)
  have h2: "gzip_NewReader probe_env ''/data/probe_001.gz'' =
     Inr ((probe_headers, None) # map (\<lambda>row. (row, None)) [probe_row1, probe_row2])"
    by (simp add: probe_env_def)
  have h3: "\<forall>row\<in>set [probe_row1, probe_row2]. length row = length probe_headers"
    by (simp add: probe_row1_def probe_row2_def probe_headers_def)
  note t = processGzipFile_records [OF h1 h2 h3, of "Some probe_client"]
  from t have r: "snd (processGzipFile probe_env (Some probe_client) ''/data/probe_001.gz'') = Inr ()"
    by blast
  from t have e: "fst (processGzipFile probe_env (Some probe_client) ''/data/probe_001.gz'') =
     [Logged (MsgHeader probe_headers), Logged (MsgLength 2)] @
     fst (bulkInsertToElasticsearch probe_env
          [[''session_id'' \<mapsto> ''1'', ''source_port'' \<mapsto> ''5000'',
            ''@timestamp'' \<mapsto> ''2024-01-01T00:00:00Z''],
           [''session_id'' \<mapsto> ''2'', ''source_port'' \<mapsto> ''5001'',
            ''@timestamp'' \<mapsto> ''2024-01-01T00:01:00Z'']] (Some probe_client))"
    by (simp add: probe_row1_def probe_row2_def probe_headers_def numeral_2_eq_2 emit_def)
  from t have v: "(Map.empty(probe_headers [\<mapsto>] probe_row2)) ''source_port'' = Some ''5001''"
    by (simp add: probe_row2_def probe_headers_def)
  from r e v h1 h2 h3 show ?thesis
    by simp
qed

text \<open>
  C2. When every map of the batch marshals, \<^verbatim>\<open>bulkInsertToElasticsearch\<close> hands exactly one
  bulk request to the client. Its body holds, per map and in the batch's order, two lines:
  the directive \<^verbatim>\<open>{ "create" : { "_index" : "twamp-data" } }\<close> and the map's JSON, each
  ended by a line feed; its refresh flag is \<^verbatim>\<open>true\<close>. This holds for the empty batch too.
\<close>

theorem bulkInsert_payload:
  \<open>(\<forall>m\<in>set dataList. json_Marshal env m = Inr (data m)) \<Longrightarrow>
     bulk_requests (fst (bulkInsertToElasticsearch env dataList es)) =
       [(es, \<lparr>Body = concat (map (\<lambda>m. meta @ (data m @ newline)) dataList),
              Refresh = ''true''\<rparr>)] \<and>
     meta = ''{ "create" : { "_index" : "twamp-data" } }'' @ newline \<and> newline = [CHR 0x0A]\<close>
proof (intro conjI)
  assume "\<forall>m\<in>set dataList. json_Marshal env m = Inr (data m)"
  then show "bulk_requests (fst (bulkInsertToElasticsearch env dataList es)) =
       [(es, \<lparr>Body = concat (map (\<lambda>m. meta @ (data m @ newline)) dataList),
              Refresh = ''true''\<rparr>)]"
    by (rule bulkInsert_requests)
qed (simp_all add: meta_def newline_def)

theorem bulkInsert_payload_witness:
  \<open>json_Marshal probe_env probe_map1 = Inr ''{"session_id":"1"}'' \<and>
   json_Marshal probe_env probe_map2 = Inr ''{"session_id":"2"}'' \<and>
   bulk_requests (fst (bulkInsertToElasticsearch probe_env [probe_map1, probe_map2] None)) =
     [(None, \<lparr>Body = ''{ "create" : { "_index" : "twamp-data" } }'' @ [CHR 0x0A] @
                      ''{"session_id":"1"}'' @ [CHR 0x0A] @
                      ''{ "create" : { "_index" : "twamp-data" } }'' @ [CHR 0x0A] @
                      ''{"session_id":"2"}'' @ [CHR 0x0A],
              Refresh = ''true''\<rparr>)]\<close>
proof -
  have h: "\<forall>m\<in>set [probe_map1, probe_map2]. json_Marshal probe_env m = Inr (probe_json m)"
    by (simp add: probe_env_def)
  have j: \<open>probe_json probe_map1 = ''{"session_id":"1"}''\<close>
    \<open>probe_json probe_map2 = ''{"session_id":"2"}''\<close>
    by (simp_all add: probe_json_def probe_map1_def probe_map2_def)
  from bulkInsert_payload [OF h, of None] h j show ?thesis
    by (simp add: newline_def)
qed

text \<open>
  C3. When some map of the batch does not marshal, \<^verbatim>\<open>bulkInsertToElasticsearch\<close> returns
  the marshalling error of a map of the batch, and no bulk request has been handed to the
  client: nothing of the batch is submitted.
\<close>

theorem bulkInsert_marshal_error_aborts:
  assumes "m \<in> set dataList" and "json_Marshal env m = Inl err"
  shows "(\<exists>m'\<in>set dataList. \<exists>err'. json_Marshal env m' = Inl err' \<and>
            snd (bulkInsertToElasticsearch env dataList es) = Inr (Some (ErrMarshalling err'))) \<and>
         bulk_requests (fst (bulkInsertToElasticsearch env dataList es)) = []"
  using assms by (rule bulkInsert_marshal_fail)

theorem bulkInsert_marshal_error_aborts_witness:
  "probe_map2 \<in> set [probe_map1, probe_map2] \<and>
   json_Marshal marshal_fail_env probe_map2 = Inl ''json: unsupported value'' \<and>
   snd (bulkInsertToElasticsearch marshal_fail_env [probe_map1, probe_map2] None) =
     Inr (Some (ErrMarshalling ''json: unsupported value'')) \<and>
   bulk_requests (fst (bulkInsertToElasticsearch marshal_fail_env [probe_map1, probe_map2] None)) = []"
proof -
  have h1: "probe_map2 \<in> set [probe_map1, probe_map2]" by simp
  have h2: "json_Marshal marshal_fail_env probe_map2 = Inl ''json: unsupported value''"
    by (simp add: marshal_fail_env_def probe_map2_def)
  have m1: "json_Marshal marshal_fail_env probe_map1 = Inr (probe_json probe_map1)"
    by (simp add: marshal_fail_env_def probe_map1_def)
  from bulkInsert_marshal_error_aborts [OF h1 h2, of None] h2 m1 h1 show ?thesis
    by auto
qed




text \<open>
  C5. For a file that opens, decompresses and parses into a header and rows of the
  header's length, the list of maps built has one map per data row: its length, which
  \<^verbatim>\<open>processGzipFile\<close> logs and hands to the indexer, is the number of data rows. With a
  client, when every map marshals and the bulk request comes back without the error
  flag, the one batch size reported as indexed is that number, and the function returns.
\<close>

theorem processGzipFile_row_count:
  assumes "os_Open env filePath = Inr f"
    and "gzip_NewReader env f = Inr ((headers, None) # map (\<lambda>row. (row, None)) rows)"
    and "\<forall>row\<in>set rows. length row = length headers"
  shows "(\<exists>dataList. mapRows headers rows [] = Inr dataList \<and> length dataList = length rows \<and>
            processGzipFile env es filePath =
              emit [Logged (MsgHeader headers), Logged (MsgLength (length dataList))]
                (fst (bulkInsertToElasticsearch env dataList es),
                 case snd (bulkInsertToElasticsearch env dataList es) of
                   Inl p \<Rightarrow> Inl p
                 | Inr err \<Rightarrow> Inr ())) \<and>
         (es = Some c \<and>
          (\<forall>row\<in>set rows. json_Marshal env (Map.empty(headers [\<mapsto>] row)) = Inr (data row)) \<and>
          bulk_Do env c \<lparr>Body = concat (map (\<lambda>row. meta @ (data row @ newline)) rows),
                         Refresh = ''true''\<rparr> = Inr res \<and> \<not> IsError res \<longrightarrow>
          successes (fst (processGzipFile env es filePath)) = [length rows] \<and>
          snd (processGzipFile env es filePath) = Inr ())"
proof (intro conjI impI)
  note p = processGzipFile_valid [OF assms, of es]
  have "mapRows headers rows [] = Inr ([] @ map (\<lambda>row. Map.empty(headers [\<mapsto>] row)) rows)"
    using assms(3) by (intro mapRows_ok) simp
  then show "\<exists>dataList. mapRows headers rows [] = Inr dataList \<and> length dataList = length rows \<and>
            processGzipFile env es filePath =
              emit [Logged (MsgHeader headers), Logged (MsgLength (length dataList))]
                (fst (bulkInsertToElasticsearch env dataList es),
                 case snd (bulkInsertToElasticsearch env dataList es) of
                   Inl p \<Rightarrow> Inl p
                 | Inr err \<Rightarrow> Inr ())"
    by (simp add: p)
  assume ok: "es = Some c \<and>
          (\<forall>row\<in>set rows. json_Marshal env (Map.empty(headers [\<mapsto>] row)) = Inr (data row)) \<and>
          bulk_Do env c \<lparr>Body = concat (map (\<lambda>row. meta @ (data row @ newline)) rows),
                         Refresh = ''true''\<rparr> = Inr res \<and> \<not> IsError res"
  let ?dl = "map (\<lambda>row. Map.empty(headers [\<mapsto>] row)) rows"
  let ?req = "\<lparr>Body = concat (map (\<lambda>row. meta @ (data row @ newline)) rows),
               Refresh = ''true''\<rparr>"
  from ok have es: "es = Some c"
    and m: "\<forall>row\<in>set rows. json_Marshal env (Map.empty(headers [\<mapsto>] row)) = Inr (data row)"
    and d: "bulk_Do env c ?req = Inr res" and e: "\<not> IsError res" by simp_all
  have r: "range_dataList env ?dl buf =
      (map (\<lambda>m. Logged (MsgDataMap m)) ?dl,
       Inr (buf @ concat (map (\<lambda>row. meta @ (data row @ newline)) rows)))" for buf
    using m by (induction rows arbitrary: buf) (simp_all add: emit_def)
  have b: "bulkInsertToElasticsearch env ?dl es =
      (map (\<lambda>m. Logged (MsgDataMap m)) ?dl @
       [BulkDo es ?req, Logged (MsgSuccess (length rows))], Inr None)"
    by (simp add: bulkInsertToElasticsearch_def r emit_def es d e)
  show "successes (fst (processGzipFile env es filePath)) = [length rows]"
    by (simp add: p b emit_def successes_append successes_dataMaps comp_def)
  show "snd (processGzipFile env es filePath) = Inr ()"
    by (simp add: p b emit_def)
qed

theorem processGzipFile_row_count_witness:
  \<open>os_Open probe_env ''/data/probe_001.gz'' = Inr ''/data/probe_001.gz'' \<and>
   gzip_NewReader probe_env ''/data/probe_001.gz'' =
     Inr ((probe_headers, None) # map (\<lambda>row. (row, None)) [probe_row1, probe_row2]) \<and>
   length probe_row1 = length probe_headers \<and> length probe_row2 = length probe_headers \<and>
   bulk_Do probe_env probe_client
     \<lparr>Body = concat (map (\<lambda>row. meta @ (probe_json (Map.empty(probe_headers [\<mapsto>] row)) @ newline))
                     [probe_row1, probe_row2]), Refresh = ''true''\<rparr> =
     Inr \<lparr>IsError = False, ResBody = ''{"errors":false}''\<rparr> \<and>
   fst (processGzipFile probe_env (Some probe_client) ''/data/probe_001.gz'') ! 1 =
     Logged (MsgLength 2) \<and>
   successes (fst (processGzipFile probe_env (Some probe_client) ''/data/probe_001.gz'')) = [2] \<and>
   snd (processGzipFile probe_env (Some probe_client) ''/data/probe_001.gz'') = Inr ()\<close>
proof -
  have h1: "os_Open probe_env ''/data/probe_001.gz'' = Inr ''/data/probe_001.gz''"
    by (simp add: probe_env_def)
  have h2: "gzip_NewReader probe_env ''/data/probe_001.gz'' =
     Inr ((probe_headers, None) # map (\<lambda>row. (row, None)) [probe_row1, probe_row2])"
    by (simp add: probe_env_def)
  have h3: "\<forall>row\<in>set [probe_row1, probe_row2]. length row = length probe_headers"
    by (simp add: probe_row1_def probe_row2_def probe_headers_def)
  have h4: "\<forall>row\<in>set [probe_row1, probe_row2].
      json_Marshal probe_env (Map.empty(probe_headers [\<mapsto>] row)) =
        Inr (probe_json (Map.empty(probe_headers [\<mapsto>] row)))"
    by (simp add: probe_env_def)
  have h5: \<open>bulk_Do probe_env probe_client req = Inr \<lparr>IsError = False, ResBody = ''{"errors":false}''\<rparr>\<close>
    for req
    by (simp add: probe_env_def)
  from processGzipFile_row_count [OF h1 h2 h3, of "Some probe_client" probe_client
      "\<lambda>row. probe_json (Map.empty(probe_headers [\<mapsto>] row))"
      \<open>\<lparr>IsError = False, ResBody = ''{"errors":false}''\<rparr>\<close>] h4 h5
  have "(\<exists>dataList. length dataList = 2 \<and>
            processGzipFile probe_env (Some probe_client) ''/data/probe_001.gz'' =
              emit [Logged (MsgHeader probe_headers), Logged (MsgLength (length dataList))]
                (fst (bulkInsertToElasticsearch probe_env dataList (Some probe_client)),
                 case snd (bulkInsertToElasticsearch probe_env dataList (Some probe_client)) of
                   Inl p \<Rightarrow> Inl p
                 | Inr err \<Rightarrow> Inr ())) \<and>
     successes (fst (processGzipFile probe_env (Some probe_client) ''/data/probe_001.gz'')) = [2] \<and>
     snd (processGzipFile probe_env (Some probe_client) ''/data/probe_001.gz'') = Inr ()"
    by (auto simp: numeral_2_eq_2)
  with h1 h2 h3 h5 show ?thesis by (auto simp: emit_def)
qed

text \<open>
  C6. For an event with the creation bit set, the handler prints the detection line and
  runs \<^verbatim>\<open>processGzipFile\<close> on the event's name exactly when the name ends with \<^verbatim>\<open>.gz\<close>;
  otherwise it does nothing at all. The watch loop that takes such an event does the
  same: for a \<^verbatim>\<open>.gz\<close> name it prints, runs \<^verbatim>\<open>processGzipFile\<close> and, unless that ended
  the process, goes on with the next message; for another name it goes on at once.
\<close>

theorem handle_event_suffix:
  assumes "Op event AND fsnotify_Create = fsnotify_Create"
  shows "handle_event env es event =
           (if suffix ''.gz'' (Name event)
            then emit [Stdout (''New .gz file detected: '' @ Name event @ newline)]
                   (processGzipFile env es (Name event))
            else ([], Inr ())) \<and>
         (fst (handle_event env es event) = []) = (\<not> suffix ''.gz'' (Name event)) \<and>
         watch_loop env es (EventMsg event # msgs) =
           (if suffix ''.gz'' (Name event)
            then (case processGzipFile env es (Name event) of
                    (out, Inl x) \<Rightarrow>
                      (Stdout (''New .gz file detected: '' @ Name event @ newline) # out, Inl x)
                  | (out, Inr u) \<Rightarrow>
                      emit (Stdout (''New .gz file detected: '' @ Name event @ newline) # out)
                        (watch_loop env es msgs))
            else watch_loop env es msgs)"
  using assms
  by (simp add: handle_event_def HasSuffix_iff_suffix emit_def split: prod.splits sum.splits)

theorem handle_event_suffix_witness:
  "Op \<lparr>Name = ''/data/notes.txt'', Op = 1\<rparr> AND fsnotify_Create = fsnotify_Create \<and>
   \<not> suffix ''.gz'' ''/data/notes.txt'' \<and>
   handle_event probe_env (Some probe_client) \<lparr>Name = ''/data/notes.txt'', Op = 1\<rparr> =
     ([], Inr ()) \<and>
   watch_loop probe_env (Some probe_client) [EventMsg \<lparr>Name = ''/data/notes.txt'', Op = 1\<rparr>] =
     ([], Inr Waiting) \<and>
   Op \<lparr>Name = ''/data/short_row.gz'', Op = 3\<rparr> AND fsnotify_Create = fsnotify_Create \<and>
   suffix ''.gz'' ''/data/short_row.gz'' \<and>
   handle_event probe_env (Some probe_client) \<lparr>Name = ''/data/short_row.gz'', Op = 3\<rparr> =
     emit [Stdout (''New .gz file detected: /data/short_row.gz'' @ newline)]
       (processGzipFile probe_env (Some probe_client) ''/data/short_row.gz'') \<and>
   watch_loop probe_env (Some probe_client)
     [EventMsg \<lparr>Name = ''/data/short_row.gz'', Op = 3\<rparr>] =
     ([Stdout (''New .gz file detected: /data/short_row.gz'' @ newline),
       Logged (MsgHeader probe_headers), Logged (MsgLength 0),
       BulkDo (Some probe_client) \<lparr>Body = [], Refresh = ''true''\<rparr>, Logged (MsgSuccess 0)],
      Inr Waiting)"
proof -
  have h: "Op \<lparr>Name = ''/data/notes.txt'', Op = 1\<rparr> AND fsnotify_Create = fsnotify_Create"
    by (simp add: fsnotify_Create_def)
  have n: "\<not> suffix ''.gz'' ''/data/notes.txt''"
    by (simp add: HasSuffix_iff_suffix [symmetric] HasSuffix_def)
  have h': "Op \<lparr>Name = ''/data/short_row.gz'', Op = 3\<rparr> AND fsnotify_Create = fsnotify_Create"
    by (simp add: fsnotify_Create_def)
  have y: "suffix ''.gz'' ''/data/short_row.gz''"
    by (simp add: HasSuffix_iff_suffix [symmetric] HasSuffix_def)
  from handle_event_suffix [OF h, of probe_env "Some probe_client" "[]"]
    handle_event_suffix [OF h', of probe_env "Some probe_client" "[]"] h n h' y
  show ?thesis
    by (simp add: emit_def probe_short_row)
qed

text \<open>
  C7, as the code has it. The mapper's loop does fault on a row with fewer cells than the
  header: \<^verbatim>\<open>mapRows\<close> panics with an index out of range at such a row. But no file makes
  \<^verbatim>\<open>processGzipFile\<close> fault there: the CSV reader, whose field count the header fixed,
  hands the loop only rows of the header's length.
\<close>

theorem mapRows_fault_unreachable:
  "((\<exists>row\<in>set rows. length row < length headers) \<longrightarrow>
      (\<exists>n. mapRows headers rows dataList = Inl (PanicIndexOutOfRange n n))) \<and>
   (\<forall>j n. snd (processGzipFile env es filePath) \<noteq> Inl (PanicIndexOutOfRange j n))"
  using mapRows_short [of rows headers dataList] processGzipFile_no_panic [of env es filePath]
  by blast

theorem mapRows_fault_unreachable_witness:
  "length [''2'', ''5001''] < length probe_headers \<and>
   mapRows probe_headers [probe_row1, [''2'', ''5001'']] [] = Inl (PanicIndexOutOfRange 2 2) \<and>
   snd (processGzipFile probe_env (Some probe_client) ''/data/short_row.gz'') \<noteq>
     Inl (PanicIndexOutOfRange 2 2) \<and>
   snd (processGzipFile probe_env (Some probe_client) ''/data/short_row.gz'') = Inr ()"
proof -
  have h: "\<exists>row\<in>set [probe_row1, [''2'', ''5001'']]. length row < length probe_headers"
    by (simp add: probe_headers_def)
  have m: "mapRows probe_headers [probe_row1, [''2'', ''5001'']] [] = Inl (PanicIndexOutOfRange 2 2)"
    by (simp add: probe_headers_def probe_row1_def)
  from mapRows_fault_unreachable [of "[probe_row1, [''2'', ''5001'']]" probe_headers "[]"
      probe_env "Some probe_client" "''/data/short_row.gz''"] h
  have "snd (processGzipFile probe_env (Some probe_client) ''/data/short_row.gz'') \<noteq>
      Inl (PanicIndexOutOfRange 2 2)"
    by blast
  with m show ?thesis by (simp add: probe_headers_def probe_short_row)
qed

text \<open>
  C7 as stated asks for a file with a short row on which processing ends in the mapper's
  out-of-range panic. There is none: whatever the collaborators return,
  \<^verbatim>\<open>processGzipFile\<close> never ends in that panic.
\<close>

theorem short_row_never_faults:
  "\<not> (\<exists>env es filePath j n.
        snd (processGzipFile env es filePath) = Inl (PanicIndexOutOfRange j n))"
  using processGzipFile_no_panic by blast

text \<open>
  C8 asks that a client that cannot be constructed end the process at startup. The code
  logs the error with \<^verbatim>\<open>log.Printf\<close> and goes on, unlike the other startup failures, which
  use \<^verbatim>\<open>log.Fatal\<close>: in a world where \<^verbatim>\<open>NewClient\<close> fails, \<^verbatim>\<open>main\<close> logs, starts watching
  and waits; the first \<^verbatim>\<open>.gz\<close> file is decoded and its bulk request is handed to the nil
  client, where the process panics.
\<close>

theorem main_client_error_not_fatal:
  "elasticsearch_NewClient no_client_env
     \<lparr>Addresses = [''''], Username = '''', Password = '''', InsecureSkipVerify = True\<rparr> =
     (None, Some ''cannot create client'') \<and>
   main no_client_env [] = ([Logged (MsgClientError ''cannot create client'')], Inr Waiting) \<and>
   main no_client_env [EventMsg \<lparr>Name = ''/data/header_only.gz'', Op = 1\<rparr>] =
     ([Logged (MsgClientError ''cannot create client''),
       Stdout (''New .gz file detected: /data/header_only.gz'' @ newline),
       Logged (MsgHeader probe_headers), Logged (MsgLength 0),
       BulkDo None \<lparr>Body = [], Refresh = ''true''\<rparr>], Inl PanicNilDereference)"
proof -
  have h1: "os_Open no_client_env ''/data/header_only.gz'' = Inr ''/data/header_only.gz''"
    by (simp add: no_client_env_def probe_env_def)
  have h2: "gzip_NewReader no_client_env ''/data/header_only.gz'' = Inr ((probe_headers, None) # [])"
    by (simp add: no_client_env_def probe_env_def)
  have rows: "fst (fst (csv_ReadAll (snd (csv_Read (csv_NewReader
      ((probe_headers, None) # [])))) [])) = []"
    by (simp add: csv_Read_header csv_ReadAll_end)
  have b: "bulkInsertToElasticsearch no_client_env [] None =
     ([BulkDo None \<lparr>Body = [], Refresh = ''true''\<rparr>], Inl PanicNilDereference)"
    by (simp add: bulkInsertToElasticsearch_def emit_def)
  have p: "processGzipFile no_client_env None ''/data/header_only.gz'' =
     ([Logged (MsgHeader probe_headers), Logged (MsgLength 0),
       BulkDo None \<lparr>Body = [], Refresh = ''true''\<rparr>], Inl PanicNilDereference)"
    by (simp add: processGzipFile_no_rows [OF h1 h2 rows] b emit_def)
  have s: "HasSuffix ''/data/header_only.gz'' ''.gz''"
    by (simp add: HasSuffix_def)
  have e: "handle_event no_client_env None \<lparr>Name = ''/data/header_only.gz'', Op = 1\<rparr> =
     ([Stdout (''New .gz file detected: /data/header_only.gz'' @ newline),
       Logged (MsgHeader probe_headers), Logged (MsgLength 0),
       BulkDo None \<lparr>Body = [], Refresh = ''true''\<rparr>], Inl PanicNilDereference)"
    by (simp add: handle_event_def s p emit_def fsnotify_Create_def)
  have m: "main no_client_env msgs =
      emit [Logged (MsgClientError ''cannot create client'')] (watch_loop no_client_env None msgs)"
    for msgs
    by (simp add: main_def no_client_env_def probe_env_def Let_def)
  show ?thesis
    by (simp add: m e emit_def) (simp add: no_client_env_def)
qed

text \<open>
  C9. When the file cannot be opened, \<^verbatim>\<open>processGzipFile\<close> logs the error and exits the
  process with status 1; in the watch loop, a creation event for such a \<^verbatim>\<open>.gz\<close> file
  ends the process, and the messages after it are never handled.
\<close>

theorem processGzipFile_open_failure_fatal:
  assumes "os_Open env filePath = Inl err"
  shows "processGzipFile env es filePath = ([Logged (MsgErr err)], Inl (OsExit 1)) \<and>
         (Name event = filePath \<and> Op event AND fsnotify_Create = fsnotify_Create \<and>
          HasSuffix filePath ''.gz'' \<longrightarrow>
            watch_loop env es (EventMsg event # msgs) =
              ([Stdout (''New .gz file detected: '' @ filePath @ newline), Logged (MsgErr err)],
               Inl (OsExit 1)))"
  using assms by (auto simp: processGzipFile_def log_Fatal_def handle_event_def emit_def)

theorem processGzipFile_open_failure_fatal_witness:
  "os_Open probe_env ''/data/missing.gz'' = Inl ''no such file or directory'' \<and>
   HasSuffix ''/data/missing.gz'' ''.gz'' \<and>
   processGzipFile probe_env None ''/data/missing.gz'' =
     ([Logged (MsgErr ''no such file or directory'')], Inl (OsExit 1)) \<and>
   watch_loop probe_env None
     [EventMsg \<lparr>Name = ''/data/missing.gz'', Op = 1\<rparr>,
      EventMsg \<lparr>Name = ''/data/probe_001.gz'', Op = 1\<rparr>] =
     ([Stdout (''New .gz file detected: /data/missing.gz'' @ newline),
       Logged (MsgErr ''no such file or directory'')], Inl (OsExit 1))"
proof -
  have h: "os_Open probe_env ''/data/missing.gz'' = Inl ''no such file or directory''"
    by (simp add: probe_env_def)
  have s: "HasSuffix ''/data/missing.gz'' ''.gz''"
    by (simp add: HasSuffix_def)
  have c: "Op \<lparr>Name = ''/data/missing.gz'', Op = 1\<rparr> AND fsnotify_Create = fsnotify_Create"
    by (simp add: fsnotify_Create_def)
  from processGzipFile_open_failure_fatal [OF h, of None "\<lparr>Name = ''/data/missing.gz'', Op = 1\<rparr>"
      "[EventMsg \<lparr>Name = ''/data/probe_001.gz'', Op = 1\<rparr>]"] h s c
  show ?thesis by simp
qed

text \<open>
  C10. When the header is read and the rows come out empty (nothing follows the header, or
  \<^verbatim>\<open>ReadAll\<close> returns an error, as it does when the cells are read without error and one
  row has another number of cells than a non-empty header), the list of maps is empty and
  \<^verbatim>\<open>bulkInsertToElasticsearch\<close> is still called with it: exactly one bulk request is handed
  to the client, and its body is empty. With a client the function then returns; with the
  nil client the call panics.
\<close>

theorem processGzipFile_empty_batch:
  assumes "os_Open env filePath = Inr f"
    and "gzip_NewReader env f = Inr ((headers, None) # rest)"
    and "rest = [] \<or>
         snd (fst (csv_ReadAll (snd (csv_Read (csv_NewReader ((headers, None) # rest)))) [])) \<noteq> None \<or>
         (headers \<noteq> [] \<and> (\<forall>x\<in>set rest. snd x = None) \<and>
          (\<exists>x\<in>set rest. length (fst x) \<noteq> length headers))"
  shows "fst (fst (csv_ReadAll (snd (csv_Read (csv_NewReader ((headers, None) # rest)))) [])) = [] \<and>
         processGzipFile env es filePath =
           emit [Logged (MsgHeader headers), Logged (MsgLength 0)]
             (fst (bulkInsertToElasticsearch env [] es),
              case snd (bulkInsertToElasticsearch env [] es) of
                Inl p \<Rightarrow> Inl p
              | Inr err \<Rightarrow> Inr ()) \<and>
         bulk_requests (fst (processGzipFile env es filePath)) =
           [(es, \<lparr>Body = [], Refresh = ''true''\<rparr>)] \<and>
         snd (processGzipFile env es filePath) =
           (case es of None \<Rightarrow> Inl PanicNilDereference | Some c \<Rightarrow> Inr ())"
proof -
  let ?r = "snd (csv_Read (csv_NewReader ((headers, None) # rest)))"
  have r: "?r = \<lparr>FieldsPerRecord = int (length headers), pending = rest\<rparr>"
    by (simp add: csv_Read_header)
  from assms(3) have rows: "fst (fst (csv_ReadAll ?r [])) = []"
  proof (elim disjE)
    assume "rest = []"
    then show ?thesis by (simp add: csv_Read_header csv_ReadAll_end)
  next
    assume "snd (fst (csv_ReadAll ?r [])) \<noteq> None"
    then show ?thesis by (rule csv_ReadAll_error_nil)
  next
    assume a: "headers \<noteq> [] \<and> (\<forall>x\<in>set rest. snd x = None) \<and>
          (\<exists>x\<in>set rest. length (fst x) \<noteq> length headers)"
    then have "fst (csv_ReadAll \<lparr>FieldsPerRecord = int (length headers), pending = rest\<rparr> []) =
        ([], Some ErrFieldCount)"
      by (intro csv_ReadAll_mismatch [where n = "length headers"]) simp_all
    then show ?thesis by (simp add: r)
  qed
  note p = processGzipFile_no_rows [OF assms(1,2) rows, of es]
  have "snd (processGzipFile env es filePath) =
           (case es of None \<Rightarrow> Inl PanicNilDereference | Some c \<Rightarrow> Inr ())"
  proof (cases es)
    case None
    show ?thesis unfolding p by (simp add: None emit_def bulkInsertToElasticsearch_def)
  next
    case (Some c)
    obtain e where "snd (bulkInsertToElasticsearch env [] (Some c)) = Inr e"
      using bulkInsert_returns by blast
    then show ?thesis unfolding p by (simp add: emit_def Some)
  qed
  then show ?thesis
    by (simp add: rows) (simp add: p emit_def bulkInsert_empty_requests)
qed

theorem processGzipFile_empty_batch_witness:
  "os_Open probe_env ''/data/short_row.gz'' = Inr ''/data/short_row.gz'' \<and>
   gzip_NewReader probe_env ''/data/short_row.gz'' =
     Inr [(probe_headers, None), (probe_row1, None), ([''2'', ''5001''], None)] \<and>
   probe_headers \<noteq> [] \<and> length [''2'', ''5001''] \<noteq> length probe_headers \<and>
   fst (processGzipFile probe_env (Some probe_client) ''/data/short_row.gz'') =
     [Logged (MsgHeader probe_headers), Logged (MsgLength 0),
      BulkDo (Some probe_client) \<lparr>Body = [], Refresh = ''true''\<rparr>, Logged (MsgSuccess 0)] \<and>
   snd (processGzipFile probe_env (Some probe_client) ''/data/short_row.gz'') = Inr () \<and>
   bulk_requests (fst (processGzipFile probe_env (Some probe_client) ''/data/short_row.gz'')) =
     [(Some probe_client, \<lparr>Body = [], Refresh = ''true''\<rparr>)]"
proof -
  have h1: "os_Open probe_env ''/data/short_row.gz'' = Inr ''/data/short_row.gz''"
    by (simp add: probe_env_def)
  have h2: "gzip_NewReader probe_env ''/data/short_row.gz'' =
     Inr ((probe_headers, None) # [(probe_row1, None), ([''2'', ''5001''], None)])"
    by (simp add: probe_env_def)
  have h3: "probe_headers \<noteq> [] \<and>
     (\<forall>x\<in>set [(probe_row1, None :: go_error option), ([''2'', ''5001''], None)]. snd x = None) \<and>
     (\<exists>x\<in>set [(probe_row1, None :: go_error option), ([''2'', ''5001''], None)].
        length (fst x) \<noteq> length probe_headers)"
    by (simp add: probe_headers_def)
  note t = processGzipFile_empty_batch [OF h1 h2, of "Some probe_client"]
  from t h3 have e: "processGzipFile probe_env (Some probe_client) ''/data/short_row.gz'' =
           emit [Logged (MsgHeader probe_headers), Logged (MsgLength 0)]
             (fst (bulkInsertToElasticsearch probe_env [] (Some probe_client)),
              case snd (bulkInsertToElasticsearch probe_env [] (Some probe_client)) of
                Inl p \<Rightarrow> Inl p
              | Inr err \<Rightarrow> Inr ())"
    by blast
  from t h3 have q: "bulk_requests (fst (processGzipFile probe_env (Some probe_client)
      ''/data/short_row.gz'')) = [(Some probe_client, \<lparr>Body = [], Refresh = ''true''\<rparr>)]"
    by blast
  from e have f: "fst (processGzipFile probe_env (Some probe_client) ''/data/short_row.gz'') =
     [Logged (MsgHeader probe_headers), Logged (MsgLength 0),
      BulkDo (Some probe_client) \<lparr>Body = [], Refresh = ''true''\<rparr>, Logged (MsgSuccess 0)]"
    and r: "snd (processGzipFile probe_env (Some probe_client) ''/data/short_row.gz'') = Inr ()"
    by (simp_all add: bulkInsert_empty_probe emit_def)
  from f r q h1 h2 h3 show ?thesis
    by (simp add: probe_headers_def)
qed

end
